theory Spec2Isabelle
  imports Main "HOL-Library.AList" "HOL-Library.Multiset" "HOL-Library.Sublist"
begin

section \<open>Python values, field descriptors and class objects\<close>

text \<open>
  The module \<^verbatim>\<open>novaconf/util/classinfo.py\<close> inspects dataclasses. The exceptions that
  its code paths can raise are values of \<open>pyerr\<close>; the last two stand for exceptions that
  only a user-supplied default factory raises.
\<close>

datatype pyerr = TypeError | KeyError | AttributeError | ValueError | ZeroDivisionError

text \<open>
  Python values as far as the module looks at them. \<open>MISSING\<close> is the sentinel
  \<^verbatim>\<open>dataclasses.MISSING\<close>, the one instance of the class \<^verbatim>\<open>_MISSING_TYPE\<close> that the
  library makes. A callable is given by the outcome of calling it with no arguments: the
  exception raised (\<open>Inl\<close>) or the value returned (\<open>Inr\<close>). \<open>PyFunc r\<close> is a callable
  that is no class (a function, a lambda, a bound method) with the outcome \<open>r\<close>;
  \<open>PyType n r\<close> is the class object named \<open>n\<close> whose call with no arguments has the
  outcome \<open>r\<close>, so \<open>Inl TypeError\<close> for a class whose constructor needs arguments.
  \<open>PyObject n\<close> is what the class named \<open>n\<close> makes when it is called with no
  arguments, an instance with no features of its own.
\<close>

datatype pyval =
    MISSING
  | PyNone
  | PyBool bool
  | PyInt int
  | PyStr string
  | PyList "pyval list"
  | PyObject string
  | PyType string "pyerr + pyval"
  | PyFunc "pyerr + pyval"

text \<open>
  \<^verbatim>\<open>type(o)\<close>: always a class object. The built-in classes called with no arguments give
  their empty value; \<^verbatim>\<open>type\<close> and \<^verbatim>\<open>function\<close> need arguments;
  \<^verbatim>\<open>_MISSING_TYPE()\<close> makes a new instance, which is not the object \<open>MISSING\<close>.
\<close>

fun type_of :: "pyval \<Rightarrow> pyval" where
  "type_of MISSING = PyType ''_MISSING_TYPE'' (Inr (PyObject ''_MISSING_TYPE''))"
| "type_of PyNone = PyType ''NoneType'' (Inr PyNone)"
| "type_of (PyBool _) = PyType ''bool'' (Inr (PyBool False))"
| "type_of (PyInt _) = PyType ''int'' (Inr (PyInt 0))"
| "type_of (PyStr _) = PyType ''str'' (Inr (PyStr []))"
| "type_of (PyList _) = PyType ''list'' (Inr (PyList []))"
| "type_of (PyObject n) = PyType n (Inr (PyObject n))"
| "type_of (PyType _ _) = PyType ''type'' (Inl TypeError)"
| "type_of (PyFunc _) = PyType ''function'' (Inl TypeError)"

text \<open>
  \<^verbatim>\<open>f()\<close> for a value \<open>f\<close>: the outcome that a function or a class carries, and
  \<^verbatim>\<open>TypeError\<close> for every value that is not callable.
\<close>

fun call0 :: "pyval \<Rightarrow> pyerr + pyval" where
  "call0 (PyFunc r) = r"
| "call0 (PyType n r) = r"
| "call0 _ = Inl TypeError"

text \<open>
  \<^verbatim>\<open>dataclasses.Field\<close>: the attributes the module reads. The declared type is opaque
  (kept as its printed form); the metadata is a read-only mapping.
\<close>

record Field =
  name :: string
  field_type :: string
  default :: pyval
  default_factory :: pyval
  metadata :: "(string \<times> pyval) list"

text \<open>
  The object handed in as \<^verbatim>\<open>cls\<close>, by what the module and the two library functions
  read of it: its \<^verbatim>\<open>__name__\<close> (absent on an object that has none, such as an
  instance); the fields under its attribute \<^verbatim>\<open>__dataclass_fields__\<close> as
  \<^verbatim>\<open>getattr\<close> on the object itself finds it, in declaration order (absent when
  there is no such attribute); whether the object is a class
  (\<^verbatim>\<open>isinstance(obj, type)\<close>); and whether its type has the attribute
  (\<^verbatim>\<open>hasattr(type(obj), "__dataclass_fields__")\<close>).
\<close>

record pyobject =
  dunder_name :: "string option"
  dataclass_fields :: "Field list option"
  isinstance_type :: bool
  type_has_dataclass_fields :: bool

text \<open>
  \<^verbatim>\<open>dataclasses.is_dataclass(obj)\<close> looks at \<^verbatim>\<open>obj\<close> when it is a class and at
  \<^verbatim>\<open>type(obj)\<close> otherwise; \<^verbatim>\<open>dataclasses.fields(obj)\<close> reads the attribute of
  \<^verbatim>\<open>obj\<close> itself and raises \<^verbatim>\<open>TypeError\<close> when there is none.
\<close>

definition is_dataclass :: "pyobject \<Rightarrow> bool" where
  "is_dataclass obj =
     (if isinstance_type obj then dataclass_fields obj \<noteq> None
      else type_has_dataclass_fields obj)"

definition dataclasses_fields :: "pyobject \<Rightarrow> pyerr + Field list" where
  "dataclasses_fields obj =
     (case dataclass_fields obj of None \<Rightarrow> Inl TypeError | Some fs \<Rightarrow> Inr fs)"

text \<open>What a lookup by name hands back: a field descriptor or any other value.\<close>

datatype pyany = FieldObj Field | Val pyval

section \<open>Module-level functions\<close>

definition is_missing :: "pyval \<Rightarrow> bool" where
  "is_missing o' = (o' = MISSING \<or> type_of o' = MISSING)"

definition field_has_default :: "Field \<Rightarrow> bool" where
  "field_has_default field =
     (\<not> is_missing (default field) \<or> \<not> is_missing (default_factory field))"

definition field_default_value :: "Field \<Rightarrow> pyerr + pyval" where
  "field_default_value field =
     (if \<not> is_missing (default field) then Inr (default field)
      else if \<not> is_missing (default_factory field) then call0 (default_factory field)
      else Inr MISSING)"

section \<open>The class DataClassInfo\<close>

text \<open>
  A Python dict keeps its keys in insertion order and assigning to a key that is present
  replaces the value in place: an association list under \<open>AList.update\<close>.
\<close>

type_synonym fielddict = "(string \<times> Field) list"

text \<open>
  The instance: \<^verbatim>\<open>_cls\<close>, \<^verbatim>\<open>_fieldmap\<close> (\<open>None\<close> is Python's \<^verbatim>\<open>None\<close>) and
  the entry \<^verbatim>\<open>"fields"\<close> of the instance's \<^verbatim>\<open>__dict__\<close>, where
  \<^verbatim>\<open>functools.cached_property\<close> stores the computed list (\<open>None\<close>: no entry).
\<close>

record DataClassInfo =
  private_cls :: pyobject
  private_fieldmap :: "fielddict option"
  fields_cache :: "Field list option"

text \<open>
  Every method returns its outcome (\<open>Inl\<close> the exception raised) together with the
  instance as the call leaves it, also when it raises.
\<close>

type_synonym 'a outcome = "(pyerr + 'a) \<times> DataClassInfo"

definition init :: "pyobject \<Rightarrow> pyerr + DataClassInfo" where
  "init cls =
     (if \<not> is_dataclass cls then Inl TypeError
      else Inr \<lparr>private_cls = cls, private_fieldmap = None, fields_cache = None\<rparr>)"

definition cls_getter :: "DataClassInfo \<Rightarrow> pyobject" where
  "cls_getter self = private_cls self"

text \<open>
  The setter: \<^verbatim>\<open>del self.fields\<close> removes the cached entry from the instance's
  \<^verbatim>\<open>__dict__\<close> and raises \<^verbatim>\<open>AttributeError\<close> when there is none; the assignment to
  \<^verbatim>\<open>_cls\<close> before it has happened by then.
\<close>

definition cls_setter :: "DataClassInfo \<Rightarrow> pyobject \<Rightarrow> unit outcome" where
  "cls_setter self cls =
     (let self1 = self\<lparr>private_cls := cls\<rparr> in
      case fields_cache self1 of
        None \<Rightarrow> (Inl AttributeError, self1)
      | Some _ \<Rightarrow> (Inr (), self1\<lparr>fields_cache := None, private_fieldmap := None\<rparr>))"

definition name_property :: "DataClassInfo \<Rightarrow> pyerr + string" where
  "name_property self =
     (case dunder_name (private_cls self) of None \<Rightarrow> Inl AttributeError | Some n \<Rightarrow> Inr n)"

text \<open>The dict comprehension \<^verbatim>\<open>{field.name: field for field in fields}\<close>.\<close>

fun dict_comprehension :: "Field list \<Rightarrow> fielddict \<Rightarrow> fielddict" where
  "dict_comprehension [] d = d"
| "dict_comprehension (field # fs) d =
     dict_comprehension fs (AList.update (name field) field d)"

text \<open>
  The cached property \<^verbatim>\<open>fields\<close> (the name \<open>fields\<close> itself belongs to the record
  package): the cached list when there is one, else the class's fields, stored in the
  cache after the name-to-descriptor dict has been rebuilt.
\<close>

definition fields_property :: "DataClassInfo \<Rightarrow> Field list outcome" where
  "fields_property self =
     (case fields_cache self of
        Some cached \<Rightarrow> (Inr cached, self)
      | None \<Rightarrow>
          (case dataclasses_fields (cls_getter self) of
             Inl e \<Rightarrow> (Inl e, self)
           | Inr fs \<Rightarrow>
               (Inr fs,
                self\<lparr>private_fieldmap := Some (dict_comprehension fs []),
                     fields_cache := Some fs\<rparr>)))"

definition fieldmap :: "DataClassInfo \<Rightarrow> fielddict option outcome" where
  "fieldmap self =
     (case fields_cache self of
        None \<Rightarrow>
          (case fields_property self of
             (Inl e, self1) \<Rightarrow> (Inl e, self1)
           | (Inr _, self1) \<Rightarrow> (Inr (private_fieldmap self1), self1))
      | Some _ \<Rightarrow> (Inr (private_fieldmap self), self))"

text \<open>The loop of \<^verbatim>\<open>required_fields\<close>: append while no default, stop at the first default.\<close>

fun required_loop :: "Field list \<Rightarrow> Field list \<Rightarrow> Field list" where
  "required_loop [] acc = acc"
| "required_loop (f # fs) acc =
     (if \<not> field_has_default f then required_loop fs (acc @ [f]) else acc)"

definition required_fields :: "DataClassInfo \<Rightarrow> Field list outcome" where
  "required_fields self =
     (case fields_property self of
        (Inl e, self1) \<Rightarrow> (Inl e, self1)
      | (Inr fs, self1) \<Rightarrow> (Inr (required_loop fs []), self1))"

text \<open>The loop of \<^verbatim>\<open>optional_fields\<close>, run over \<^verbatim>\<open>self.fields[::-1]\<close>.\<close>

fun optional_loop :: "Field list \<Rightarrow> Field list \<Rightarrow> Field list" where
  "optional_loop [] acc = acc"
| "optional_loop (f # fs) acc =
     (if field_has_default f then optional_loop fs (acc @ [f]) else acc)"

definition optional_fields :: "DataClassInfo \<Rightarrow> Field list outcome" where
  "optional_fields self =
     (case fields_property self of
        (Inl e, self1) \<Rightarrow> (Inl e, self1)
      | (Inr fs, self1) \<Rightarrow> (Inr (rev (optional_loop (rev fs) [])), self1))"

text \<open>
  \<^verbatim>\<open>get_field(field, default=None)\<close>: the optional argument is \<open>None\<close> when the caller
  leaves it out. \<^verbatim>\<open>self.fieldmap.get\<close> raises \<^verbatim>\<open>AttributeError\<close> on \<^verbatim>\<open>None\<close>.
\<close>

definition get_field :: "DataClassInfo \<Rightarrow> string \<Rightarrow> pyany option \<Rightarrow> pyany outcome" where
  "get_field self field dflt =
     (let default' = (case dflt of None \<Rightarrow> Val PyNone | Some d \<Rightarrow> d) in
      case fieldmap self of
        (Inl e, self1) \<Rightarrow> (Inl e, self1)
      | (Inr None, self1) \<Rightarrow> (Inl AttributeError, self1)
      | (Inr (Some d), self1) \<Rightarrow>
          (Inr (case map_of d field of None \<Rightarrow> default' | Some fld \<Rightarrow> FieldObj fld), self1))"

text \<open>
  The three lookups that raise \<^verbatim>\<open>KeyError\<close>. Building the message reads
  \<^verbatim>\<open>self.name\<close> first. A value that is neither \<^verbatim>\<open>None\<close> nor a descriptor has none
  of the descriptor's attributes.
\<close>

definition raise_no_field :: "DataClassInfo \<Rightarrow> pyerr" where
  "raise_no_field self = (case name_property self of Inl e \<Rightarrow> e | Inr _ \<Rightarrow> KeyError)"

definition default_value :: "DataClassInfo \<Rightarrow> string \<Rightarrow> pyval outcome" where
  "default_value self field =
     (case get_field self field None of
        (Inl e, self1) \<Rightarrow> (Inl e, self1)
      | (Inr (Val PyNone), self1) \<Rightarrow> (Inl (raise_no_field self1), self1)
      | (Inr (Val _), self1) \<Rightarrow> (Inl AttributeError, self1)
      | (Inr (FieldObj fld), self1) \<Rightarrow> (field_default_value fld, self1))"

definition get_metadata :: "DataClassInfo \<Rightarrow> string \<Rightarrow> (string \<times> pyval) list outcome" where
  "get_metadata self field =
     (case get_field self field None of
        (Inl e, self1) \<Rightarrow> (Inl e, self1)
      | (Inr (Val PyNone), self1) \<Rightarrow> (Inl (raise_no_field self1), self1)
      | (Inr (Val _), self1) \<Rightarrow> (Inl AttributeError, self1)
      | (Inr (FieldObj fld), self1) \<Rightarrow> (Inr (metadata fld), self1))"

definition has_default :: "DataClassInfo \<Rightarrow> string \<Rightarrow> bool outcome" where
  "has_default self field =
     (case get_field self field None of
        (Inl e, self1) \<Rightarrow> (Inl e, self1)
      | (Inr (Val PyNone), self1) \<Rightarrow> (Inl (raise_no_field self1), self1)
      | (Inr (Val _), self1) \<Rightarrow> (Inl AttributeError, self1)
      | (Inr (FieldObj fld), self1) \<Rightarrow> (Inr (field_has_default fld), self1))"

text \<open>The loop of \<^verbatim>\<open>split_required_optional_fields\<close>, with its two lists.\<close>

fun split_loop :: "Field list \<Rightarrow> Field list \<times> Field list \<Rightarrow> Field list \<times> Field list" where
  "split_loop [] (req, opt) = (req, opt)"
| "split_loop (field # fs) (req, opt) =
     (if field_has_default field then split_loop fs (req, opt @ [field])
      else split_loop fs (req @ [field], opt))"

definition split_required_optional_fields ::
    "DataClassInfo \<Rightarrow> (Field list \<times> Field list) outcome" where
  "split_required_optional_fields self =
     (case fields_property self of
        (Inl e, self1) \<Rightarrow> (Inl e, self1)
      | (Inr fs, self1) \<Rightarrow> (Inr (split_loop fs ([], [])), self1))"


section \<open>Record classes and the instance's invariant\<close>

text \<open>
  A record class declaring the fields \<open>fs\<close>: a class (it has a \<^verbatim>\<open>__name__\<close>) that
  dataclass introspection accepts, with field names unique within the class, as
  \<^verbatim>\<open>__dataclass_fields__\<close> is keyed by name.
\<close>

definition record_class :: "pyobject \<Rightarrow> Field list \<Rightarrow> bool" where
  "record_class cls fs =
     (dunder_name cls \<noteq> None \<and> dataclass_fields cls = Some fs \<and> distinct (map name fs))"

text \<open>
  The relation between the three attributes that the constructor establishes and every
  method keeps: without a cached list there is no dict, and a cached list is the list of
  the wrapped class's fields, with the dict built from it.
\<close>

definition consistent :: "DataClassInfo \<Rightarrow> bool" where
  "consistent self =
     (case fields_cache self of
        None \<Rightarrow> private_fieldmap self = None
      | Some fs \<Rightarrow>
          dataclass_fields (private_cls self) = Some fs \<and>
          private_fieldmap self = Some (dict_comprehension fs []))"

text \<open>The instances that a program gets from the constructor, reads and reassignments.\<close>

inductive reachable :: "DataClassInfo \<Rightarrow> bool" where
  constructed: "init cls = Inr self \<Longrightarrow> reachable self"
| fields_read: "reachable self \<Longrightarrow> reachable (snd (fields_property self))"
| cls_assigned: "reachable self \<Longrightarrow> reachable (snd (cls_setter self cls))"

section \<open>Example classes\<close>

text \<open>
  \<^verbatim>\<open>Point\<close> declares \<^verbatim>\<open>x: int\<close> and \<^verbatim>\<open>y: int = 0\<close>. \<^verbatim>\<open>Mixed\<close> adds a keyword-only
  \<^verbatim>\<open>z: int\<close> with no default after them. \<^verbatim>\<open>Bag\<close> has
  \<^verbatim>\<open>items: list = field(default_factory=list)\<close> and a descriptor \<^verbatim>\<open>both\<close> that carries
  a default and a factory at once. \<^verbatim>\<open>Broken\<close> has a field whose factory raises.
  \<^verbatim>\<open>Odd\<close> has a field whose factory is the class \<^verbatim>\<open>range\<close>, which cannot be called
  without arguments, and a field whose factory is the number 5. \<^verbatim>\<open>Plain\<close> is a
  class that is no dataclass. \<^verbatim>\<open>a_point\<close> is an instance of \<^verbatim>\<open>Point\<close>, and
  \<^verbatim>\<open>impostor\<close> an instance of \<^verbatim>\<open>Plain\<close> that was given an attribute
  \<^verbatim>\<open>__dataclass_fields__\<close> of its own.
\<close>

definition fx :: Field where
  "fx = \<lparr>name = ''x'', field_type = ''int'', default = MISSING,
         default_factory = MISSING, metadata = []\<rparr>"

definition fy :: Field where
  "fy = \<lparr>name = ''y'', field_type = ''int'', default = PyInt 0,
         default_factory = MISSING, metadata = [(''unit'', PyStr ''m'')]\<rparr>"

definition fz :: Field where
  "fz = \<lparr>name = ''z'', field_type = ''int'', default = MISSING,
         default_factory = MISSING, metadata = []\<rparr>"

definition fitems :: Field where
  "fitems = \<lparr>name = ''items'', field_type = ''list'', default = MISSING,
             default_factory = PyType ''list'' (Inr (PyList [])), metadata = []\<rparr>"

definition fboth :: Field where
  "fboth = \<lparr>name = ''both'', field_type = ''int'', default = PyInt 1,
            default_factory = PyFunc (Inr (PyInt 2)), metadata = []\<rparr>"

definition fbad :: Field where
  "fbad = \<lparr>name = ''ratio'', field_type = ''float'', default = MISSING,
           default_factory = PyFunc (Inl ZeroDivisionError), metadata = []\<rparr>"

definition fspan :: Field where
  "fspan = \<lparr>name = ''span'', field_type = ''range'', default = MISSING,
            default_factory = PyType ''range'' (Inl TypeError), metadata = []\<rparr>"

definition fnum :: Field where
  "fnum = \<lparr>name = ''num'', field_type = ''int'', default = MISSING,
           default_factory = PyInt 5, metadata = []\<rparr>"

definition Point :: pyobject where
  "Point = \<lparr>dunder_name = Some ''Point'', dataclass_fields = Some [fx, fy],
            isinstance_type = True, type_has_dataclass_fields = False\<rparr>"

definition Mixed :: pyobject where
  "Mixed = \<lparr>dunder_name = Some ''Mixed'', dataclass_fields = Some [fx, fy, fz],
     isinstance_type = True, type_has_dataclass_fields = False\<rparr>"

definition Bag :: pyobject where
  "Bag = \<lparr>dunder_name = Some ''Bag'', dataclass_fields = Some [fx, fitems, fboth],
     isinstance_type = True, type_has_dataclass_fields = False\<rparr>"

definition Broken :: pyobject where
  "Broken = \<lparr>dunder_name = Some ''Broken'', dataclass_fields = Some [fbad],
     isinstance_type = True, type_has_dataclass_fields = False\<rparr>"

definition Plain :: pyobject where
  "Plain = \<lparr>dunder_name = Some ''Plain'', dataclass_fields = None,
     isinstance_type = True, type_has_dataclass_fields = False\<rparr>"

definition Odd :: pyobject where
  "Odd = \<lparr>dunder_name = Some ''Odd'', dataclass_fields = Some [fspan, fnum],
     isinstance_type = True, type_has_dataclass_fields = False\<rparr>"

definition a_point :: pyobject where
  "a_point = \<lparr>dunder_name = None, dataclass_fields = Some [fx, fy],
     isinstance_type = False, type_has_dataclass_fields = True\<rparr>"

definition impostor :: pyobject where
  "impostor = \<lparr>dunder_name = None, dataclass_fields = Some [fx],
     isinstance_type = False, type_has_dataclass_fields = False\<rparr>"

text \<open>A fresh inspector of a class, and the inspector after \<^verbatim>\<open>fields\<close> has been read.\<close>

definition fresh :: "pyobject \<Rightarrow> DataClassInfo" where
  "fresh cls = \<lparr>private_cls = cls, private_fieldmap = None, fields_cache = None\<rparr>"

definition loaded :: "pyobject \<Rightarrow> Field list \<Rightarrow> DataClassInfo" where
  "loaded cls fs =
     \<lparr>private_cls = cls, private_fieldmap = Some (dict_comprehension fs []),
      fields_cache = Some fs\<rparr>"

section \<open>Facts about the module-level functions and the loops\<close>

lemma is_missing_iff: "is_missing v \<longleftrightarrow> v = MISSING"
  by (cases v) (simp_all add: is_missing_def)

lemma field_has_default_iff:
  "field_has_default f \<longleftrightarrow> default f \<noteq> MISSING \<or> default_factory f \<noteq> MISSING"
  by (simp add: field_has_default_def is_missing_iff)

lemma required_loop_eq: "required_loop fs acc = acc @ takeWhile (\<lambda>f. \<not> field_has_default f) fs"
  by (induction fs arbitrary: acc) simp_all

lemma optional_loop_eq: "optional_loop fs acc = acc @ takeWhile field_has_default fs"
  by (induction fs arbitrary: acc) simp_all

lemma split_loop_eq: "split_loop fs (req, opt) =
   (req @ filter (\<lambda>f. \<not> field_has_default f) fs, opt @ filter field_has_default fs)"
  by (induction fs arbitrary: req opt) simp_all

lemma dict_comprehension_lookup_gen:
  "distinct (map name fs) \<Longrightarrow>
   map_of (dict_comprehension fs d) nm =
     (case find (\<lambda>f. name f = nm) fs of None \<Rightarrow> map_of d nm | Some f \<Rightarrow> Some f)"
proof (induction fs arbitrary: d)
  case Nil
  show ?case by simp
next
  case (Cons f fs)
  from Cons.prems have dist: "distinct (map name fs)" and fresh: "name f \<notin> name ` set fs"
    by simp_all
  show ?case
  proof (cases "name f = nm")
    case True
    have "find (\<lambda>g. name g = nm) fs = None"
      unfolding find_None_iff using fresh True by (metis imageI)
    with True show ?thesis
      by (simp add: Cons.IH [OF dist] update_conv' split: option.splits)
  next
    case False
    then show ?thesis
      by (simp add: Cons.IH [OF dist] update_conv' split: option.splits)
  qed
qed

lemma dict_comprehension_lookup:
  "distinct (map name fs) \<Longrightarrow>
   map_of (dict_comprehension fs []) nm = find (\<lambda>f. name f = nm) fs"
  by (simp add: dict_comprehension_lookup_gen split: option.splits)

lemma dict_comprehension_keys:
  "fst ` set (dict_comprehension fs d) = fst ` set d \<union> name ` set fs"
  by (induction fs arbitrary: d) (auto simp: dom_update)


lemma fields_property_computed:
  assumes "consistent self" and "dataclass_fields (private_cls self) = Some fs"
  shows "\<exists>self1. fields_property self = (Inr fs, self1) \<and> consistent self1 \<and>
           private_cls self1 = private_cls self \<and> fields_cache self1 = Some fs \<and>
           private_fieldmap self1 = Some (dict_comprehension fs []) \<and>
           (fields_cache self \<noteq> None \<longrightarrow> self1 = self)"
  using assms
  by (auto simp: fields_property_def consistent_def dataclasses_fields_def cls_getter_def
           split: option.splits)

lemma fieldmap_computed:
  assumes "consistent self" and "dataclass_fields (private_cls self) = Some fs"
  shows "fieldmap self = (Inr (Some (dict_comprehension fs [])), snd (fields_property self))"
  using assms
  by (auto simp: fieldmap_def fields_property_def consistent_def dataclasses_fields_def
           cls_getter_def split: option.splits)

lemma get_field_computed:
  assumes "consistent self" and "dataclass_fields (private_cls self) = Some fs"
  shows "get_field self nm dflt =
           (Inr (case map_of (dict_comprehension fs []) nm of
                   None \<Rightarrow> (case dflt of None \<Rightarrow> Val PyNone | Some d \<Rightarrow> d)
                 | Some fld \<Rightarrow> FieldObj fld),
            snd (fields_property self))"
  by (simp add: get_field_def fieldmap_computed [OF assms])


lemma takeWhile_stops:
  "\<exists>rest. xs = takeWhile P xs @ rest \<and> (rest = [] \<or> \<not> P (hd rest))"
proof -
  have "xs = takeWhile P xs @ dropWhile P xs" by simp
  moreover have "dropWhile P xs = [] \<or> \<not> P (hd (dropWhile P xs))"
    using hd_dropWhile [of P xs] by blast
  ultimately show ?thesis by blast
qed

lemma takeWhile_length_le_index:
  "i < length xs \<Longrightarrow> \<not> P (xs ! i) \<Longrightarrow> length (takeWhile P xs) \<le> i"
proof (rule ccontr)
  assume xs: "i < length xs" and np: "\<not> P (xs ! i)" and "\<not> length (takeWhile P xs) \<le> i"
  then have lt: "i < length (takeWhile P xs)" by simp
  then have "takeWhile P xs ! i \<in> set (takeWhile P xs)" by (rule nth_mem)
  then have "P (takeWhile P xs ! i)" by (rule set_takeWhileD [THEN conjunct2])
  with takeWhile_nth [OF lt] np show False by simp
qed

lemma fields_property_fresh:
  "dataclass_fields cls = Some fs \<Longrightarrow> fields_property (fresh cls) = (Inr fs, loaded cls fs)"
  by (simp add: fields_property_def fresh_def loaded_def dataclasses_fields_def cls_getter_def)

lemma is_dataclass_class:
  "isinstance_type cls \<Longrightarrow> dataclass_fields cls = Some fs \<Longrightarrow> is_dataclass cls"
  by (simp add: is_dataclass_def)

lemma init_fresh: "is_dataclass cls \<Longrightarrow> init cls = Inr (fresh cls)"
  by (simp add: init_def fresh_def)

lemma rev_takeWhile_rev_stops:
  "\<exists>rest. xs = rest @ rev (takeWhile P (rev xs)) \<and> (rest = [] \<or> \<not> P (last rest))"
proof -
  obtain r where r: "rev xs = takeWhile P (rev xs) @ r" "r = [] \<or> \<not> P (hd r)"
    using takeWhile_stops [of "rev xs" P] by blast
  from r(1) have "rev (rev xs) = rev (takeWhile P (rev xs) @ r)"
    by (rule arg_cong)
  then have "xs = rev r @ rev (takeWhile P (rev xs))"
    by simp
  moreover from r(2) have "rev r = [] \<or> \<not> P (last (rev r))"
    by (cases r) simp_all
  ultimately show ?thesis by blast
qed

lemma find_by_name:
  "distinct (map name fs) \<Longrightarrow> fld \<in> set fs \<Longrightarrow> find (\<lambda>f. name f = name fld) fs = Some fld"
  by (induction fs) (auto simp: image_iff)

lemma find_by_name_None:
  "nm \<notin> name ` set fs \<Longrightarrow> find (\<lambda>f. name f = nm) fs = None"
  by (auto simp: find_None_iff)

lemma record_class_lookup:
  assumes "record_class cls fs" and "fld \<in> set fs"
  shows "map_of (dict_comprehension fs []) (name fld) = Some fld"
  using assms by (simp add: record_class_def dict_comprehension_lookup find_by_name)

lemma record_class_lookup_None:
  assumes "record_class cls fs" and "nm \<notin> name ` set fs"
  shows "map_of (dict_comprehension fs []) nm = None"
  using assms by (simp add: record_class_def dict_comprehension_lookup find_by_name_None)

lemma raise_no_field_after_fields:
  assumes "consistent self" and "record_class (private_cls self) fs"
  shows "raise_no_field (snd (fields_property self)) = KeyError"
proof -
  from assms have "dataclass_fields (private_cls self) = Some fs"
    by (simp add: record_class_def)
  from fields_property_computed [OF assms(1) this]
  have "private_cls (snd (fields_property self)) = private_cls self"
    by auto
  with assms(2) show ?thesis
    by (auto simp: raise_no_field_def name_property_def record_class_def)
qed

lemma consistent_fresh: "consistent (fresh cls)"
  by (simp add: consistent_def fresh_def)

lemma snd_fields_property_fresh:
  "dataclass_fields cls = Some fs \<Longrightarrow> snd (fields_property (fresh cls)) = loaded cls fs"
  by (simp add: fields_property_fresh)

lemma get_field_present:
  assumes "consistent self" and "record_class (private_cls self) fs" and "fld \<in> set fs"
  shows "get_field self (name fld) dflt = (Inr (FieldObj fld), snd (fields_property self))"
proof -
  from assms(2) have dc: "dataclass_fields (private_cls self) = Some fs"
    by (simp add: record_class_def)
  show ?thesis
    by (simp add: get_field_computed [OF assms(1) dc] record_class_lookup [OF assms(2,3)])
qed

lemma get_field_absent:
  assumes "consistent self" and "record_class (private_cls self) fs" and "nm \<notin> name ` set fs"
  shows "get_field self nm dflt =
           (Inr (case dflt of None \<Rightarrow> Val PyNone | Some d \<Rightarrow> d), snd (fields_property self))"
proof -
  from assms(2) have dc: "dataclass_fields (private_cls self) = Some fs"
    by (simp add: record_class_def)
  show ?thesis
    by (simp add: get_field_computed [OF assms(1) dc] record_class_lookup_None [OF assms(2,3)])
qed

lemma field_default_value_cases:
  "field_default_value fld =
     (if default fld \<noteq> MISSING then Inr (default fld)
      else case default_factory fld of
             MISSING \<Rightarrow> Inr MISSING
           | PyFunc r \<Rightarrow> r
           | PyType n r \<Rightarrow> r
           | _ \<Rightarrow> Inl TypeError)"
  by (cases "default_factory fld") (simp_all add: field_default_value_def is_missing_iff)

lemma field_default_value_fails_iff:
  "(\<exists>e. field_default_value fld = Inl e) \<longleftrightarrow>
   default fld = MISSING \<and>
   (case default_factory fld of
      MISSING \<Rightarrow> False
    | PyFunc r \<Rightarrow> (\<exists>e. r = Inl e)
    | PyType n r \<Rightarrow> (\<exists>e. r = Inl e)
    | _ \<Rightarrow> True)"
  by (cases "default_factory fld") (simp_all add: field_default_value_cases)

section \<open>The invariant, and what the methods do to the instance\<close>

lemma init_consistent: "init cls = Inr self \<Longrightarrow> consistent self"
  by (auto simp: init_def consistent_def split: if_splits)

lemma fields_property_consistent:
  assumes "consistent self"
  shows "consistent (snd (fields_property self))"
proof (cases "fields_cache self")
  case (Some cached)
  with assms show ?thesis
    by (simp add: fields_property_def)
next
  case None
  show ?thesis
  proof (cases "dataclass_fields (private_cls self)")
    case no: None
    with None assms show ?thesis
      by (simp add: fields_property_def dataclasses_fields_def cls_getter_def)
  next
    case (Some fs)
    with None show ?thesis
      by (simp add: fields_property_def dataclasses_fields_def cls_getter_def consistent_def)
  qed
qed

lemma cls_setter_consistent: "consistent self \<Longrightarrow> consistent (snd (cls_setter self cls))"
  by (cases "fields_cache self") (simp_all add: cls_setter_def consistent_def Let_def)

lemma reachable_consistent: "reachable self \<Longrightarrow> consistent self"
  by (induction rule: reachable.induct)
     (simp_all add: init_consistent fields_property_consistent cls_setter_consistent)

lemma snd_fieldmap: "snd (fieldmap self) = snd (fields_property self)"
  by (auto simp: fieldmap_def fields_property_def split: option.splits sum.splits prod.splits)

lemma snd_get_field: "snd (get_field self nm dflt) = snd (fields_property self)"
  using snd_fieldmap [of self]
  by (auto simp: get_field_def Let_def split: option.splits sum.splits prod.splits)

lemma snd_required_fields: "snd (required_fields self) = snd (fields_property self)"
  by (auto simp: required_fields_def split: sum.splits prod.splits)

lemma snd_optional_fields: "snd (optional_fields self) = snd (fields_property self)"
  by (auto simp: optional_fields_def split: sum.splits prod.splits)

lemma snd_split_required_optional_fields:
  "snd (split_required_optional_fields self) = snd (fields_property self)"
  by (auto simp: split_required_optional_fields_def split: sum.splits prod.splits)

lemma snd_default_value: "snd (default_value self nm) = snd (fields_property self)"
  using snd_get_field [of self nm None]
  by (auto simp: default_value_def split: sum.splits prod.splits pyany.splits pyval.splits)

lemma snd_get_metadata: "snd (get_metadata self nm) = snd (fields_property self)"
  using snd_get_field [of self nm None]
  by (auto simp: get_metadata_def split: sum.splits prod.splits pyany.splits pyval.splits)

lemma snd_has_default: "snd (has_default self nm) = snd (fields_property self)"
  using snd_get_field [of self nm None]
  by (auto simp: has_default_def split: sum.splits prod.splits pyany.splits pyval.splits)

lemma cls_setter_cases:
  "cls_setter self cls =
     (if fields_cache self = None then (Inl AttributeError, self\<lparr>private_cls := cls\<rparr>)
      else (Inr (), self\<lparr>private_cls := cls, fields_cache := None, private_fieldmap := None\<rparr>))"
  by (auto simp: cls_setter_def Let_def split: option.splits)

lemma fields_property_after_setter:
  assumes "dataclass_fields cls = Some fs"
  shows "fields_property (snd (cls_setter self cls)) = (Inr fs, loaded cls fs)"
  using assms
  by (simp add: cls_setter_cases fields_property_def dataclasses_fields_def cls_getter_def
        loaded_def)

lemma setters_only_stay_fresh:
  "foldl (\<lambda>s c. snd (cls_setter s c)) (fresh c0) cs = fresh (last (c0 # cs))"
  by (induction cs arbitrary: c0) (simp_all add: cls_setter_cases fresh_def)

section \<open>The claims\<close>

text \<open>
  C1. \<^verbatim>\<open>required_fields\<close> returns exactly the prefix of \<^verbatim>\<open>fields\<close> made of the fields
  without a default, scanned from the front and stopping at the first field that has a
  default or a default factory: it is what \<open>takeWhile\<close> keeps, the rest of the list is
  empty or starts with a field that has a default, the result is empty when the first field
  has a default, and no field at or behind the position of a field with a default is in
  the result.
\<close>

theorem required_fields_prefix:
  assumes "fields_property self = (Inr fs, self1)"
  shows "\<exists>req rest.
           required_fields self = (Inr req, self1) \<and>
           req = takeWhile (\<lambda>f. \<not> field_has_default f) fs \<and>
           fs = req @ rest \<and>
           (\<forall>f \<in> set req. \<not> field_has_default f) \<and>
           (rest = [] \<or> field_has_default (hd rest)) \<and>
           (fs \<noteq> [] \<and> field_has_default (hd fs) \<longrightarrow> req = []) \<and>
           (\<forall>i < length fs. field_has_default (fs ! i) \<longrightarrow> length req \<le> i)"
proof -
  let ?P = "\<lambda>f. \<not> field_has_default f"
  let ?req = "takeWhile ?P fs"
  have run: "required_fields self = (Inr ?req, self1)"
    by (simp add: required_fields_def assms required_loop_eq)
  obtain rest where rest: "fs = ?req @ rest" "rest = [] \<or> \<not> ?P (hd rest)"
    using takeWhile_stops [of fs ?P] by blast
  have nodef: "\<forall>f \<in> set ?req. \<not> field_has_default f"
    by (auto dest: set_takeWhileD)
  have first: "fs \<noteq> [] \<and> field_has_default (hd fs) \<longrightarrow> ?req = []"
    by (cases fs) simp_all
  have later: "\<forall>i < length fs. field_has_default (fs ! i) \<longrightarrow> length ?req \<le> i"
    by (simp add: takeWhile_length_le_index)
  have stop: "rest = [] \<or> field_has_default (hd rest)"
    using rest(2) by blast
  show ?thesis
    by (intro exI [of _ ?req] exI [of _ rest] conjI run refl rest(1) nodef stop first later)
qed

theorem required_fields_prefix_witness:
  "init Mixed = Inr (fresh Mixed) \<and>
   fields_property (fresh Mixed) = (Inr [fx, fy, fz], loaded Mixed [fx, fy, fz]) \<and>
   required_fields (fresh Mixed) = (Inr [fx], loaded Mixed [fx, fy, fz])"
proof -
  have cls: "dataclass_fields Mixed = Some [fx, fy, fz]"
    by (simp add: Mixed_def)
  have h: "fields_property (fresh Mixed) = (Inr [fx, fy, fz], loaded Mixed [fx, fy, fz])"
    by (rule fields_property_fresh [OF cls])
  have d: "\<not> field_has_default fx" "field_has_default fy"
    by (simp_all add: field_has_default_iff fx_def fy_def)
  from required_fields_prefix [OF h] obtain req
    where r: "required_fields (fresh Mixed) = (Inr req, loaded Mixed [fx, fy, fz])"
      and q: "req = takeWhile (\<lambda>f. \<not> field_has_default f) [fx, fy, fz]"
    by blast
  from q d have "req = [fx]" by simp
  with r have req: "required_fields (fresh Mixed) = (Inr [fx], loaded Mixed [fx, fy, fz])"
    by simp
  have "is_dataclass Mixed"
    by (rule is_dataclass_class [OF _ cls]) (simp add: Mixed_def)
  with h req init_fresh [of Mixed] show ?thesis by simp
qed


text \<open>
  C2. \<^verbatim>\<open>optional_fields\<close> returns exactly the suffix of \<^verbatim>\<open>fields\<close> made of the fields
  with a default or a default factory, scanned from the back and stopping at the first
  field without one, in declaration order: the part of the list before it is empty or ends
  with a field without a default, and the result is empty when the last field has no
  default.
\<close>

theorem optional_fields_suffix:
  assumes "fields_property self = (Inr fs, self1)"
  shows "\<exists>opt rest.
           optional_fields self = (Inr opt, self1) \<and>
           opt = rev (takeWhile field_has_default (rev fs)) \<and>
           fs = rest @ opt \<and>
           (\<forall>f \<in> set opt. field_has_default f) \<and>
           (rest = [] \<or> \<not> field_has_default (last rest)) \<and>
           (fs \<noteq> [] \<and> \<not> field_has_default (last fs) \<longrightarrow> opt = [])"
proof -
  let ?opt = "rev (takeWhile field_has_default (rev fs))"
  have run: "optional_fields self = (Inr ?opt, self1)"
    by (simp add: optional_fields_def assms optional_loop_eq)
  obtain rest where rest: "fs = rest @ ?opt" "rest = [] \<or> \<not> field_has_default (last rest)"
    using rev_takeWhile_rev_stops [of fs field_has_default] by blast
  have alldef: "\<forall>f \<in> set ?opt. field_has_default f"
    by (auto dest: set_takeWhileD)
  have lastreq: "fs \<noteq> [] \<and> \<not> field_has_default (last fs) \<longrightarrow> ?opt = []"
    by (cases fs rule: rev_cases) simp_all
  show ?thesis
    by (intro exI [of _ ?opt] exI [of _ rest] conjI run refl rest alldef lastreq)
qed

theorem optional_fields_suffix_witness:
  "fields_property (fresh Bag) = (Inr [fx, fitems, fboth], loaded Bag [fx, fitems, fboth]) \<and>
   optional_fields (fresh Bag) = (Inr [fitems, fboth], loaded Bag [fx, fitems, fboth]) \<and>
   fields_property (fresh Mixed) = (Inr [fx, fy, fz], loaded Mixed [fx, fy, fz]) \<and>
   optional_fields (fresh Mixed) = (Inr [], loaded Mixed [fx, fy, fz])"
proof -
  have b: "fields_property (fresh Bag) = (Inr [fx, fitems, fboth], loaded Bag [fx, fitems, fboth])"
    by (rule fields_property_fresh) (simp add: Bag_def)
  have m: "fields_property (fresh Mixed) = (Inr [fx, fy, fz], loaded Mixed [fx, fy, fz])"
    by (rule fields_property_fresh) (simp add: Mixed_def)
  have d: "\<not> field_has_default fx" "field_has_default fitems" "field_has_default fboth"
          "\<not> field_has_default fz"
    by (simp_all add: field_has_default_iff fx_def fitems_def fboth_def fz_def)
  from optional_fields_suffix [OF b] obtain opt
    where r: "optional_fields (fresh Bag) = (Inr opt, loaded Bag [fx, fitems, fboth])"
      and q: "opt = rev (takeWhile field_has_default (rev [fx, fitems, fboth]))"
    by blast
  from q d have "opt = [fitems, fboth]" by simp
  with r have r1: "optional_fields (fresh Bag) = (Inr [fitems, fboth], loaded Bag [fx, fitems, fboth])"
    by simp
  from optional_fields_suffix [OF m] obtain opt'
    where r': "optional_fields (fresh Mixed) = (Inr opt', loaded Mixed [fx, fy, fz])"
      and q': "opt' = rev (takeWhile field_has_default (rev [fx, fy, fz]))"
    by blast
  from q' d have "opt' = []" by simp
  with r' have r2: "optional_fields (fresh Mixed) = (Inr [], loaded Mixed [fx, fy, fz])"
    by simp
  from b r1 m r2 show ?thesis by blast
qed

text \<open>
  C3. \<^verbatim>\<open>split_required_optional_fields\<close> partitions \<^verbatim>\<open>fields\<close> by "has a default" in
  one full pass: the first result is all the fields without a default, the second all the
  fields with one, each in the original relative order; together they hold every field
  as often as the list does, and no field is in both.
\<close>

theorem split_partitions_fields:
  assumes "fields_property self = (Inr fs, self1)"
  shows "\<exists>req opt.
           split_required_optional_fields self = (Inr (req, opt), self1) \<and>
           req = filter (\<lambda>f. \<not> field_has_default f) fs \<and>
           opt = filter field_has_default fs \<and>
           mset req + mset opt = mset fs \<and>
           set req \<inter> set opt = {} \<and>
           subseq req fs \<and> subseq opt fs"
proof -
  let ?req = "filter (\<lambda>f. \<not> field_has_default f) fs"
  let ?opt = "filter field_has_default fs"
  have run: "split_required_optional_fields self = (Inr (?req, ?opt), self1)"
    by (simp add: split_required_optional_fields_def assms split_loop_eq)
  have count: "mset ?req + mset ?opt = mset fs"
    by (induction fs) simp_all
  have apart: "set ?req \<inter> set ?opt = {}"
    by auto
  have order: "subseq ?req fs" "subseq ?opt fs"
    by simp_all
  show ?thesis
    by (intro exI [of _ ?req] exI [of _ ?opt] conjI run refl count apart order)
qed

theorem split_partitions_fields_witness:
  "fields_property (fresh Mixed) = (Inr [fx, fy, fz], loaded Mixed [fx, fy, fz]) \<and>
   split_required_optional_fields (fresh Mixed) =
     (Inr ([fx, fz], [fy]), loaded Mixed [fx, fy, fz])"
proof -
  have m: "fields_property (fresh Mixed) = (Inr [fx, fy, fz], loaded Mixed [fx, fy, fz])"
    by (rule fields_property_fresh) (simp add: Mixed_def)
  have d: "\<not> field_has_default fx" "field_has_default fy" "\<not> field_has_default fz"
    by (simp_all add: field_has_default_iff fx_def fy_def fz_def)
  from split_partitions_fields [OF m] obtain req opt
    where r: "split_required_optional_fields (fresh Mixed) = (Inr (req, opt), loaded Mixed [fx, fy, fz])"
      and q: "req = filter (\<lambda>f. \<not> field_has_default f) [fx, fy, fz]"
             "opt = filter field_has_default [fx, fy, fz]"
    by blast
  from q d have "req = [fx, fz]" "opt = [fy]" by simp_all
  with r m show ?thesis by simp
qed


text \<open>
  C4. For every field of the wrapped record class, \<^verbatim>\<open>default_value\<close> of its name is the
  field's explicit default when one is set, also when a default factory is set as well;
  otherwise, when a factory is set, the outcome of calling the factory with no arguments
  (the outcome that a function or a class has, \<^verbatim>\<open>TypeError\<close> for a factory that is not
  callable); otherwise the sentinel \<open>MISSING\<close>.
\<close>

theorem default_value_prefers_default:
  assumes "consistent self" and "record_class (private_cls self) fs" and "fld \<in> set fs"
  shows "default_value self (name fld) =
           (if default fld \<noteq> MISSING then Inr (default fld)
            else case default_factory fld of
                   MISSING \<Rightarrow> Inr MISSING
                 | PyFunc r \<Rightarrow> r
                 | PyType n r \<Rightarrow> r
                 | _ \<Rightarrow> Inl TypeError,
            snd (fields_property self))"
proof -
  from assms(2) have dc: "dataclass_fields (private_cls self) = Some fs"
    by (simp add: record_class_def)
  have "get_field self (name fld) None = (Inr (FieldObj fld), snd (fields_property self))"
    by (simp add: get_field_computed [OF assms(1) dc] record_class_lookup [OF assms(2,3)])
  then have "default_value self (name fld) = (field_default_value fld, snd (fields_property self))"
    by (simp add: default_value_def)
  then show ?thesis
    by (simp only: field_default_value_cases)
qed

theorem default_value_prefers_default_witness:
  "default_value (fresh Bag) ''both'' = (Inr (PyInt 1), loaded Bag [fx, fitems, fboth]) \<and>
   default_value (fresh Bag) ''items'' = (Inr (PyList []), loaded Bag [fx, fitems, fboth]) \<and>
   default_value (fresh Bag) ''x'' = (Inr MISSING, loaded Bag [fx, fitems, fboth]) \<and>
   default_value (fresh Odd) ''span'' = (Inl TypeError, loaded Odd [fspan, fnum]) \<and>
   default_value (fresh Odd) ''num'' = (Inl TypeError, loaded Odd [fspan, fnum]) \<and>
   default_value (fresh Broken) ''ratio'' = (Inl ZeroDivisionError, loaded Broken [fbad])"
proof -
  have dc: "dataclass_fields Bag = Some [fx, fitems, fboth]"
    by (simp add: Bag_def)
  have rc: "record_class (private_cls (fresh Bag)) [fx, fitems, fboth]"
    by (simp add: record_class_def fresh_def Bag_def fx_def fitems_def fboth_def)
  note dv = default_value_prefers_default [OF consistent_fresh rc]
  have 1: "default_value (fresh Bag) (name fboth) = (Inr (PyInt 1), loaded Bag [fx, fitems, fboth])"
    using dv [of fboth] by (simp add: snd_fields_property_fresh [OF dc] fboth_def)
  have 2: "default_value (fresh Bag) (name fitems) = (Inr (PyList []), loaded Bag [fx, fitems, fboth])"
    using dv [of fitems] by (simp add: snd_fields_property_fresh [OF dc] fitems_def)
  have 3: "default_value (fresh Bag) (name fx) = (Inr MISSING, loaded Bag [fx, fitems, fboth])"
    using dv [of fx] by (simp add: snd_fields_property_fresh [OF dc] fx_def)
  have dc': "dataclass_fields Odd = Some [fspan, fnum]"
    by (simp add: Odd_def)
  have rc': "record_class (private_cls (fresh Odd)) [fspan, fnum]"
    by (simp add: record_class_def fresh_def Odd_def fspan_def fnum_def)
  note dv' = default_value_prefers_default [OF consistent_fresh rc']
  have 4: "default_value (fresh Odd) (name fspan) = (Inl TypeError, loaded Odd [fspan, fnum])"
    using dv' [of fspan] by (simp add: snd_fields_property_fresh [OF dc'] fspan_def)
  have 5: "default_value (fresh Odd) (name fnum) = (Inl TypeError, loaded Odd [fspan, fnum])"
    using dv' [of fnum] by (simp add: snd_fields_property_fresh [OF dc'] fnum_def)
  have dc'': "dataclass_fields Broken = Some [fbad]"
    by (simp add: Broken_def)
  have rc'': "record_class (private_cls (fresh Broken)) [fbad]"
    by (simp add: record_class_def fresh_def Broken_def fbad_def)
  have 6: "default_value (fresh Broken) (name fbad) = (Inl ZeroDivisionError, loaded Broken [fbad])"
    using default_value_prefers_default [OF consistent_fresh rc'', of fbad]
    by (simp add: snd_fields_property_fresh [OF dc''] fbad_def)
  from 1 2 3 4 5 6 show ?thesis
    by (simp add: fboth_def fitems_def fx_def fspan_def fnum_def fbad_def)
qed


text \<open>
  C5. As stated, the claim ends with: for every name that is a field, none of
  \<^verbatim>\<open>has_default\<close>, \<^verbatim>\<open>default_value\<close> and \<^verbatim>\<open>get_metadata\<close> fails. That part does not
  hold of \<^verbatim>\<open>default_value\<close>, which calls the field's default factory and lets the
  exception of the factory through (the class \<^verbatim>\<open>Broken\<close> below). What holds: for a
  record class and a name that is none of its fields, each of the three raises
  \<^verbatim>\<open>KeyError\<close>; for the name of a field, \<^verbatim>\<open>has_default\<close> and \<^verbatim>\<open>get_metadata\<close>
  return, and \<^verbatim>\<open>default_value\<close> has the outcome of \<open>field_default_value\<close>, which
  fails exactly when the field has no explicit default and the call of its factory fails:
  the factory is a function or a class whose call with no arguments raises, or it is a
  value that is not callable.
\<close>

theorem lookups_raise_keyerror:
  assumes "consistent self" and "record_class (private_cls self) fs"
  shows "(nm \<notin> name ` set fs \<longrightarrow>
            fst (has_default self nm) = Inl KeyError \<and>
            fst (default_value self nm) = Inl KeyError \<and>
            fst (get_metadata self nm) = Inl KeyError) \<and>
         (\<forall>fld \<in> set fs.
            fst (has_default self (name fld)) = Inr (field_has_default fld) \<and>
            fst (get_metadata self (name fld)) = Inr (metadata fld) \<and>
            fst (default_value self (name fld)) = field_default_value fld \<and>
            ((\<exists>e. fst (default_value self (name fld)) = Inl e) \<longleftrightarrow>
               default fld = MISSING \<and>
               (case default_factory fld of
                  MISSING \<Rightarrow> False
                | PyFunc r \<Rightarrow> (\<exists>e. r = Inl e)
                | PyType n r \<Rightarrow> (\<exists>e. r = Inl e)
                | _ \<Rightarrow> True)))"
proof (intro conjI impI ballI)
  assume absent: "nm \<notin> name ` set fs"
  note g = get_field_absent [OF assms absent, of None]
  note k = raise_no_field_after_fields [OF assms]
  show "fst (has_default self nm) = Inl KeyError"
    by (simp add: has_default_def g k)
  show "fst (default_value self nm) = Inl KeyError"
    by (simp add: default_value_def g k)
  show "fst (get_metadata self nm) = Inl KeyError"
    by (simp add: get_metadata_def g k)
next
  fix fld assume "fld \<in> set fs"
  note g = get_field_present [OF assms this, of None]
  show "fst (has_default self (name fld)) = Inr (field_has_default fld)"
    by (simp add: has_default_def g)
  show "fst (get_metadata self (name fld)) = Inr (metadata fld)"
    by (simp add: get_metadata_def g)
  show dv: "fst (default_value self (name fld)) = field_default_value fld"
    by (simp add: default_value_def g)
  show "(\<exists>e. fst (default_value self (name fld)) = Inl e) \<longleftrightarrow>
          default fld = MISSING \<and>
          (case default_factory fld of
             MISSING \<Rightarrow> False
           | PyFunc r \<Rightarrow> (\<exists>e. r = Inl e)
           | PyType n r \<Rightarrow> (\<exists>e. r = Inl e)
           | _ \<Rightarrow> True)"
    unfolding dv by (rule field_default_value_fails_iff)
qed

theorem lookups_raise_keyerror_witness:
  "fst (has_default (fresh Point) ''z'') = Inl KeyError \<and>
   fst (default_value (fresh Point) ''z'') = Inl KeyError \<and>
   fst (get_metadata (fresh Point) ''z'') = Inl KeyError \<and>
   fst (has_default (fresh Point) ''y'') = Inr True \<and>
   fst (get_metadata (fresh Point) ''y'') = Inr [(''unit'', PyStr ''m'')] \<and>
   fst (default_value (fresh Point) ''y'') = Inr (PyInt 0) \<and>
   fst (has_default (fresh Odd) ''span'') = Inr True \<and>
   fst (default_value (fresh Odd) ''span'') = Inl TypeError \<and>
   (\<exists>e. fst (default_value (fresh Odd) ''num'') = Inl e)"
proof -
  have rc': "record_class (private_cls (fresh Odd)) [fspan, fnum]"
    by (simp add: record_class_def fresh_def Odd_def fspan_def fnum_def)
  note t' = lookups_raise_keyerror [OF consistent_fresh rc', of "''z''"]
  have s: "fspan \<in> set [fspan, fnum]" "fnum \<in> set [fspan, fnum]"
    by simp_all
  have sp: "name fspan = ''span''" "field_has_default fspan"
           "field_default_value fspan = Inl TypeError"
    by (simp_all add: fspan_def field_has_default_iff field_default_value_cases)
  from t' s(1)
  have "fst (has_default (fresh Odd) (name fspan)) = Inr (field_has_default fspan) \<and>
        fst (default_value (fresh Odd) (name fspan)) = field_default_value fspan"
    by blast
  with sp have b: "fst (has_default (fresh Odd) ''span'') = Inr True \<and>
                   fst (default_value (fresh Odd) ''span'') = Inl TypeError"
    by simp
  have nu: "name fnum = ''num''" "default fnum = MISSING" "default_factory fnum = PyInt 5"
    by (simp_all add: fnum_def)
  from t' s(2)
  have "(\<exists>e. fst (default_value (fresh Odd) (name fnum)) = Inl e) \<longleftrightarrow>
          default fnum = MISSING \<and>
          (case default_factory fnum of
             MISSING \<Rightarrow> False
           | PyFunc r \<Rightarrow> (\<exists>e. r = Inl e)
           | PyType n r \<Rightarrow> (\<exists>e. r = Inl e)
           | _ \<Rightarrow> True)"
    by blast
  with nu have c: "\<exists>e. fst (default_value (fresh Odd) ''num'') = Inl e"
    by simp
  have rc: "record_class (private_cls (fresh Point)) [fx, fy]"
    by (simp add: record_class_def fresh_def Point_def fx_def fy_def)
  note t = lookups_raise_keyerror [OF consistent_fresh rc]
  have absent: "''z'' \<notin> name ` set [fx, fy]"
    by (simp add: fx_def fy_def)
  have present: "fy \<in> set [fx, fy]"
    by simp
  have y: "name fy = ''y''" "field_has_default fy" "metadata fy = [(''unit'', PyStr ''m'')]"
          "field_default_value fy = Inr (PyInt 0)"
    by (simp_all add: fy_def field_has_default_iff field_default_value_def is_missing_iff)
  from t [of "''z''"] absent
  have a: "fst (has_default (fresh Point) ''z'') = Inl KeyError \<and>
           fst (default_value (fresh Point) ''z'') = Inl KeyError \<and>
           fst (get_metadata (fresh Point) ''z'') = Inl KeyError"
    by blast
  from t [of "''z''"] present
  have "fst (has_default (fresh Point) (name fy)) = Inr (field_has_default fy) \<and>
        fst (get_metadata (fresh Point) (name fy)) = Inr (metadata fy) \<and>
        fst (default_value (fresh Point) (name fy)) = field_default_value fy"
    by blast
  with y a b c show ?thesis by simp
qed

theorem default_value_fails_on_field_counterexample:
  "init Broken = Inr (fresh Broken) \<and>
   record_class (private_cls (fresh Broken)) [fbad] \<and>
   consistent (fresh Broken) \<and>
   ''ratio'' \<in> name ` set [fbad] \<and>
   fst (default_value (fresh Broken) ''ratio'') = Inl ZeroDivisionError"
  by (simp add: init_def is_dataclass_def fresh_def Broken_def fbad_def record_class_def
        consistent_def default_value_def get_field_def fieldmap_def fields_property_def
        dataclasses_fields_def cls_getter_def field_default_value_def is_missing_iff)

text \<open>
  C6. On a wrapped record class, \<^verbatim>\<open>get_field(name, default)\<close> never fails, for every
  name and every default: it returns the descriptor of the field of that name when there
  is one, and the caller's default (\<^verbatim>\<open>None\<close> when the caller gives none) otherwise.
\<close>

theorem get_field_never_fails:
  assumes "consistent self" and "record_class (private_cls self) fs"
  shows "\<exists>r. get_field self nm dflt = (Inr r, snd (fields_property self)) \<and>
           (\<forall>fld \<in> set fs. name fld = nm \<longrightarrow> r = FieldObj fld) \<and>
           (nm \<notin> name ` set fs \<longrightarrow> r = (case dflt of None \<Rightarrow> Val PyNone | Some d \<Rightarrow> d))"
proof (cases "nm \<in> name ` set fs")
  case True
  then obtain fld where fld: "fld \<in> set fs" "name fld = nm"
    by auto
  from assms(2) have "distinct (map name fs)"
    by (simp add: record_class_def)
  with fld have only: "\<forall>g \<in> set fs. name g = nm \<longrightarrow> g = fld"
    by (auto simp: distinct_map inj_on_def)
  from get_field_present [OF assms fld(1), of dflt] fld(2)
  have "get_field self nm dflt = (Inr (FieldObj fld), snd (fields_property self))"
    by simp
  with only True show ?thesis by auto
next
  case False
  from get_field_absent [OF assms False, of dflt] False show ?thesis
    by auto
qed

theorem get_field_never_fails_witness:
  "get_field (fresh Point) ''z'' None = (Inr (Val PyNone), loaded Point [fx, fy]) \<and>
   get_field (fresh Point) ''z'' (Some (Val (PyInt 7))) = (Inr (Val (PyInt 7)), loaded Point [fx, fy]) \<and>
   get_field (fresh Point) ''x'' None = (Inr (FieldObj fx), loaded Point [fx, fy])"
proof -
  have dc: "dataclass_fields Point = Some [fx, fy]"
    by (simp add: Point_def)
  have rc: "record_class (private_cls (fresh Point)) [fx, fy]"
    by (simp add: record_class_def fresh_def Point_def fx_def fy_def)
  note t = get_field_never_fails [OF consistent_fresh rc]
  note s = snd_fields_property_fresh [OF dc]
  have absent: "''z'' \<notin> name ` set [fx, fy]"
    by (simp add: fx_def fy_def)
  have x: "fx \<in> set [fx, fy]" "name fx = ''x''"
    by (simp_all add: fx_def)
  from t [of "''z''" None] absent
  have 1: "get_field (fresh Point) ''z'' None = (Inr (Val PyNone), loaded Point [fx, fy])"
    unfolding s by auto
  from t [of "''z''" "Some (Val (PyInt 7))"] absent
  have 2: "get_field (fresh Point) ''z'' (Some (Val (PyInt 7))) =
             (Inr (Val (PyInt 7)), loaded Point [fx, fy])"
    unfolding s by auto
  from t [of "''x''" None] x
  have 3: "get_field (fresh Point) ''x'' None = (Inr (FieldObj fx), loaded Point [fx, fy])"
    unfolding s by auto
  from 1 2 3 show ?thesis by blast
qed


text \<open>
  C7. Reassigning \<^verbatim>\<open>cls\<close> invalidates the cached field list and the name-to-descriptor
  dict: after the assignment of a record class (whether the setter returns or raises), the
  instance wraps the new class and has no cached list, the next read of \<^verbatim>\<open>fields\<close>
  returns the new class's fields, computed anew, and \<^verbatim>\<open>fieldmap\<close> is the dict built from
  them. On an instance that satisfies the invariant the dict attribute is cleared as well.
\<close>

theorem cls_setter_invalidates_cache:
  assumes "dataclass_fields cls = Some fs"
  shows "private_cls (snd (cls_setter self cls)) = cls \<and>
         fields_cache (snd (cls_setter self cls)) = None \<and>
         fields_property (snd (cls_setter self cls)) = (Inr fs, loaded cls fs) \<and>
         fieldmap (snd (cls_setter self cls)) =
           (Inr (Some (dict_comprehension fs [])), loaded cls fs) \<and>
         (consistent self \<longrightarrow> private_fieldmap (snd (cls_setter self cls)) = None)"
proof (intro conjI impI)
  show "private_cls (snd (cls_setter self cls)) = cls"
    by (simp add: cls_setter_cases)
  show none: "fields_cache (snd (cls_setter self cls)) = None"
    by (simp add: cls_setter_cases)
  show f: "fields_property (snd (cls_setter self cls)) = (Inr fs, loaded cls fs)"
    by (rule fields_property_after_setter [OF assms])
  show "fieldmap (snd (cls_setter self cls)) =
          (Inr (Some (dict_comprehension fs [])), loaded cls fs)"
    by (simp add: fieldmap_def none f loaded_def)
  assume "consistent self"
  then show "private_fieldmap (snd (cls_setter self cls)) = None"
    by (auto simp: cls_setter_cases consistent_def)
qed

theorem cls_setter_invalidates_cache_witness:
  "cls_setter (loaded Point [fx, fy]) Bag = (Inr (), fresh Bag) \<and>
   fields_property (fresh Bag) = (Inr [fx, fitems, fboth], loaded Bag [fx, fitems, fboth]) \<and>
   fieldmap (fresh Bag) =
     (Inr (Some [(''x'', fx), (''items'', fitems), (''both'', fboth)]),
      loaded Bag [fx, fitems, fboth]) \<and>
   private_fieldmap (fresh Bag) = None"
proof -
  have dc: "dataclass_fields Bag = Some [fx, fitems, fboth]"
    by (simp add: Bag_def)
  have set: "cls_setter (loaded Point [fx, fy]) Bag = (Inr (), fresh Bag)"
    by (simp add: cls_setter_cases loaded_def fresh_def)
  have c: "consistent (loaded Point [fx, fy])"
    by (simp add: consistent_def loaded_def Point_def)
  have d: "dict_comprehension [fx, fitems, fboth] [] =
             [(''x'', fx), (''items'', fitems), (''both'', fboth)]"
    by (simp add: fx_def fitems_def fboth_def)
  from cls_setter_invalidates_cache [OF dc, of "loaded Point [fx, fy]"] c
  show ?thesis
    unfolding set d by simp
qed

text \<open>
  C8. On a wrapped record class, \<^verbatim>\<open>fieldmap\<close> returns a dict (never \<^verbatim>\<open>None\<close>): reading
  it computes \<^verbatim>\<open>fields\<close> when that is not cached yet, and leaves the list cached. Looking
  a name up in the dict gives what scanning \<^verbatim>\<open>fields\<close> for that name gives, every field
  is found under its name, and the keys are exactly the field names.
\<close>

theorem fieldmap_matches_fields:
  assumes "consistent self" and "record_class (private_cls self) fs"
  shows "\<exists>d. fieldmap self = (Inr (Some d), snd (fields_property self)) \<and>
           fst (fields_property self) = Inr fs \<and>
           fields_cache (snd (fields_property self)) = Some fs \<and>
           private_fieldmap (snd (fields_property self)) = Some d \<and>
           (\<forall>nm. map_of d nm = find (\<lambda>f. name f = nm) fs) \<and>
           (\<forall>fld \<in> set fs. map_of d (name fld) = Some fld) \<and>
           fst ` set d = name ` set fs"
proof -
  let ?d = "dict_comprehension fs []"
  from assms(2) have dc: "dataclass_fields (private_cls self) = Some fs"
    and dist: "distinct (map name fs)"
    by (simp_all add: record_class_def)
  from fields_property_computed [OF assms(1) dc]
  have f: "fst (fields_property self) = Inr fs"
    "fields_cache (snd (fields_property self)) = Some fs"
    "private_fieldmap (snd (fields_property self)) = Some ?d"
    by auto
  have m: "fieldmap self = (Inr (Some ?d), snd (fields_property self))"
    by (rule fieldmap_computed [OF assms(1) dc])
  have look: "\<forall>nm. map_of ?d nm = find (\<lambda>f. name f = nm) fs"
    by (simp add: dict_comprehension_lookup [OF dist])
  have each: "\<forall>fld \<in> set fs. map_of ?d (name fld) = Some fld"
    by (simp add: record_class_lookup [OF assms(2)])
  have keys: "fst ` set ?d = name ` set fs"
    by (simp add: dict_comprehension_keys)
  show ?thesis
    by (intro exI [of _ ?d] conjI m f look each keys)
qed

theorem fieldmap_matches_fields_witness:
  "fieldmap (fresh Point) = (Inr (Some [(''x'', fx), (''y'', fy)]), loaded Point [fx, fy]) \<and>
   fields_cache (loaded Point [fx, fy]) = Some [fx, fy]"
proof -
  have dc: "dataclass_fields Point = Some [fx, fy]"
    by (simp add: Point_def)
  have rc: "record_class (private_cls (fresh Point)) [fx, fy]"
    by (simp add: record_class_def fresh_def Point_def fx_def fy_def)
  from fieldmap_matches_fields [OF consistent_fresh rc] obtain d
    where m: "fieldmap (fresh Point) = (Inr (Some d), snd (fields_property (fresh Point)))"
      and p: "private_fieldmap (snd (fields_property (fresh Point))) = Some d"
      and c: "fields_cache (snd (fields_property (fresh Point))) = Some [fx, fy]"
    by blast
  from p have "d = [(''x'', fx), (''y'', fy)]"
    by (simp add: snd_fields_property_fresh [OF dc] loaded_def fx_def fy_def)
  with m c show ?thesis
    by (simp add: snd_fields_property_fresh [OF dc])
qed

text \<open>
  C9. As stated, the constructor raises \<^verbatim>\<open>TypeError\<close> if and only if \<^verbatim>\<open>cls\<close> is
  not a record class, that is, does not support dataclass field introspection. The guard
  is \<^verbatim>\<open>dataclasses.is_dataclass\<close>, which differs from both readings on objects that
  are no classes: an instance of a record class is accepted although it is no class
  (\<open>a_point\<close>), and an object that carries the fields attribute only itself is rejected
  although \<^verbatim>\<open>dataclasses.fields\<close> introspects it (\<open>impostor\<close>). What holds: the
  constructor raises nothing but \<^verbatim>\<open>TypeError\<close>; for a class object it raises if and
  only if field introspection of the class fails; for any other object it raises if and
  only if the object's type has no dataclass fields; on a record class that is a class it
  returns an inspector that wraps exactly that class, with nothing cached; and whenever it
  returns, the inspector wraps exactly the object given.
\<close>

theorem init_typeerror_iff:
  "(\<forall>e. init cls = Inl e \<longrightarrow> e = TypeError) \<and>
   (isinstance_type cls \<longrightarrow>
      (init cls = Inl TypeError \<longleftrightarrow> dataclasses_fields cls = Inl TypeError)) \<and>
   (\<not> isinstance_type cls \<longrightarrow>
      (init cls = Inl TypeError \<longleftrightarrow> \<not> type_has_dataclass_fields cls)) \<and>
   (isinstance_type cls \<and> record_class cls fs \<longrightarrow>
      (\<exists>self. init cls = Inr self \<and> cls_getter self = cls \<and>
              private_fieldmap self = None \<and> fields_cache self = None)) \<and>
   (\<forall>self. init cls = Inr self \<longrightarrow> cls_getter self = cls)"
proof (intro conjI allI impI)
  fix e assume "init cls = Inl e"
  then show "e = TypeError"
    by (simp add: init_def split: if_splits)
next
  assume "isinstance_type cls"
  then show "init cls = Inl TypeError \<longleftrightarrow> dataclasses_fields cls = Inl TypeError"
    by (cases "dataclass_fields cls") (simp_all add: init_def is_dataclass_def dataclasses_fields_def)
next
  assume "\<not> isinstance_type cls"
  then show "init cls = Inl TypeError \<longleftrightarrow> \<not> type_has_dataclass_fields cls"
    by (simp add: init_def is_dataclass_def)
next
  assume "isinstance_type cls \<and> record_class cls fs"
  then have "is_dataclass cls"
    by (simp add: is_dataclass_class record_class_def)
  then have "init cls = Inr (fresh cls)"
    by (rule init_fresh)
  then show "\<exists>self. init cls = Inr self \<and> cls_getter self = cls \<and>
                private_fieldmap self = None \<and> fields_cache self = None"
    by (simp add: cls_getter_def fresh_def)
next
  fix self assume "init cls = Inr self"
  then show "cls_getter self = cls"
    by (auto simp: init_def cls_getter_def split: if_splits)
qed

theorem init_typeerror_iff_witness:
  "init Plain = Inl TypeError \<and> dataclasses_fields Plain = Inl TypeError \<and>
   (\<exists>self. init Point = Inr self \<and> cls_getter self = Point) \<and>
   init impostor = Inl TypeError"
proof -
  have p: "isinstance_type Plain" "dataclasses_fields Plain = Inl TypeError"
    by (simp_all add: Plain_def dataclasses_fields_def)
  from init_typeerror_iff [of Plain] p have 1: "init Plain = Inl TypeError"
    by blast
  have q: "isinstance_type Point \<and> record_class Point [fx, fy]"
    by (simp add: Point_def record_class_def fx_def fy_def)
  from init_typeerror_iff [of Point "[fx, fy]"] q
  have 2: "\<exists>self. init Point = Inr self \<and> cls_getter self = Point"
    by blast
  have r: "\<not> isinstance_type impostor" "\<not> type_has_dataclass_fields impostor"
    by (simp_all add: impostor_def)
  from init_typeerror_iff [of impostor] r have 3: "init impostor = Inl TypeError"
    by blast
  from 1 p(2) 2 3 show ?thesis by blast
qed

theorem init_guard_counterexample:
  "isinstance_type a_point = False \<and> init a_point = Inr (fresh a_point) \<and>
   dataclasses_fields impostor = Inr [fx] \<and> init impostor = Inl TypeError"
  by (simp add: a_point_def impostor_def init_def is_dataclass_def fresh_def
        dataclasses_fields_def)


text \<open>
  C10. When \<^verbatim>\<open>fields\<close> is not cached, assigning \<^verbatim>\<open>cls\<close> raises
  \<^verbatim>\<open>AttributeError\<close>, and the instance wraps the new class by then. The assignment
  returns without error exactly when the list is cached. So it raises on a fresh
  inspector, also after any number of assignments; a second assignment right after a first
  one raises; and after a read of \<^verbatim>\<open>fields\<close> that returned, the assignment returns.
\<close>

theorem cls_setter_raises_without_cache:
  "(fields_cache self = None \<longrightarrow>
      cls_setter self cls = (Inl AttributeError, self\<lparr>private_cls := cls\<rparr>)) \<and>
   (fst (cls_setter self cls) = Inr () \<longleftrightarrow> fields_cache self \<noteq> None) \<and>
   (init c0 = Inr self0 \<longrightarrow>
      cls_setter (foldl (\<lambda>s c. snd (cls_setter s c)) self0 cs) cls =
        (Inl AttributeError, fresh cls)) \<and>
   fst (cls_setter (snd (cls_setter self c1)) cls) = Inl AttributeError \<and>
   (\<forall>fs. fst (fields_property self) = Inr fs \<longrightarrow>
      fst (cls_setter (snd (fields_property self)) cls) = Inr ())"
proof (intro conjI impI allI)
  show "cls_setter self cls = (Inl AttributeError, self\<lparr>private_cls := cls\<rparr>)"
    if "fields_cache self = None"
    using that by (simp add: cls_setter_cases)
  show "fst (cls_setter self cls) = Inr () \<longleftrightarrow> fields_cache self \<noteq> None"
    by (simp add: cls_setter_cases)
  show "cls_setter (foldl (\<lambda>s c. snd (cls_setter s c)) self0 cs) cls =
          (Inl AttributeError, fresh cls)"
    if "init c0 = Inr self0"
  proof -
    from that have "self0 = fresh c0"
      by (auto simp: init_def fresh_def split: if_splits)
    then show ?thesis
      by (simp add: setters_only_stay_fresh) (simp add: cls_setter_cases fresh_def)
  qed
  show "fst (cls_setter (snd (cls_setter self c1)) cls) = Inl AttributeError"
    by (simp add: cls_setter_cases)
  show "fst (cls_setter (snd (fields_property self)) cls) = Inr ()"
    if "fst (fields_property self) = Inr fs" for fs
    using that
    by (auto simp: cls_setter_cases fields_property_def split: option.splits sum.splits)
qed

theorem cls_setter_raises_without_cache_witness:
  "init Point = Inr (fresh Point) \<and>
   cls_setter (fresh Point) Bag = (Inl AttributeError, fresh Bag) \<and>
   fst (cls_setter (loaded Point [fx, fy]) Bag) = Inr ()"
proof -
  have dc: "dataclass_fields Point = Some [fx, fy]"
    by (simp add: Point_def)
  have i: "init Point = Inr (fresh Point)"
    by (rule init_fresh, rule is_dataclass_class [OF _ dc]) (simp add: Point_def)
  from cls_setter_raises_without_cache [of "fresh Point" Bag Point "fresh Point" "[]"] i
  have 1: "cls_setter (fresh Point) Bag = (Inl AttributeError, fresh Bag)"
    by simp
  have f: "fields_property (fresh Point) = (Inr [fx, fy], loaded Point [fx, fy])"
    by (rule fields_property_fresh [OF dc])
  from cls_setter_raises_without_cache [of "fresh Point" Bag]
  have "\<forall>fs. fst (fields_property (fresh Point)) = Inr fs \<longrightarrow>
          fst (cls_setter (snd (fields_property (fresh Point))) Bag) = Inr ()"
    by blast
  then have 2: "fst (cls_setter (loaded Point [fx, fy]) Bag) = Inr ()"
    by (simp add: f)
  from i 1 2 show ?thesis by blast
qed


end
